theory Spec2Isabelle
  imports Complex_Main
begin

section \<open>Values, locations, exceptions and log records\<close>

text \<open>
  The script \<^verbatim>\<open>aerframe_budget_geofence.py\<close> handles locations as Python dicts
  indexed by attribute name. A dict is a partial map from keys to values; the object a
  variable holds is either \<^verbatim>\<open>None\<close> or such a dict. Values of the attributes are
  integers (the cell identifiers) or strings (anything else the provider sends along).
\<close>

datatype pyval = PyInt int | PyStr string

type_synonym loc = "string \<rightharpoonup> pyval"

type_synonym pyobj = "loc option"

text \<open>
  The exceptions a tick can meet: the provider's \<^verbatim>\<open>ApiException\<close>, the
  \<^verbatim>\<open>KeyError\<close> of a missing key, the \<^verbatim>\<open>TypeError\<close> of subscripting
  \<^verbatim>\<open>None\<close>, and any other exception the provider call may let through.
\<close>

datatype exc = ApiException | KeyError string | TypeError | OtherError string

text \<open>
  Every call on the logger is recorded with its level and its message, whether or not the
  level the logger was configured with lets the record through (the script configures
  the logger at level INFO before it starts the loop, so the records at level DEBUG are
  dropped there). A message keeps the values its f-string interpolates.
  \<^verbatim>\<open>logger.warn\<close> logs at level WARNING.
\<close>

datatype level = DEBUG | INFO | WARNING | ERROR

datatype message =
    LatestLocation pyobj
  | StayPutLocation pyobj
  | DeviceMoved
  | MovedFrom string pyval pyval
  | ApiProblem exc
  | HorriblyWrong exc

type_synonym entry = "level \<times> message"

text \<open>\<^verbatim>\<open>obj[k]\<close>: a TypeError on None, a KeyError on a dict without the key.\<close>

definition subscript :: "pyobj \<Rightarrow> string \<Rightarrow> exc + pyval" where
  "subscript obj k =
     (case obj of
        None \<Rightarrow> Inl TypeError
      | Some d \<Rightarrow> (case d k of None \<Rightarrow> Inl (KeyError k) | Some v \<Rightarrow> Inr v))"

text \<open>A dict that has the four identity fields.\<close>

definition has_fields :: "loc \<Rightarrow> bool" where
  "has_fields d =
     (d ''mcc'' \<noteq> None \<and> d ''mnc'' \<noteq> None \<and> d ''lac'' \<noteq> None \<and> d ''cellId'' \<noteq> None)"

section \<open>The two helpers\<close>

text \<open>
  \<^verbatim>\<open>
  def is_location_present(loc):
      if loc['mcc'] == 0:
          return False
      return True
  \<close>
\<close>

definition is_location_present :: "pyobj \<Rightarrow> exc + bool" where
  "is_location_present loc =
     (case subscript loc ''mcc'' of
        Inl e \<Rightarrow> Inl e
      | Inr v \<Rightarrow> if v = PyInt 0 then Inr False else Inr True)"

text \<open>
  \<^verbatim>\<open>
  def location_changed(new_loc, prev_loc):
      result = False
      if prev_loc is None:
          return False
      for attribute in ('mcc', 'mnc', 'lac', 'cellId'):
          if new_loc[attribute] != prev_loc[attribute]:
              logger.warn(f'Device has moved from {attribute} {prev_loc[attribute]} to {new_loc[attribute]}')
              result = True
      return result
  \<close>
  The loop carries the log records written so far and \<^verbatim>\<open>result\<close>. The left operand
  \<^verbatim>\<open>new_loc[attribute]\<close> is evaluated first; an exception leaves the loop with the
  records already written.
\<close>

fun location_changed_loop ::
  "pyobj \<Rightarrow> pyobj \<Rightarrow> string list \<Rightarrow> entry list \<Rightarrow> bool \<Rightarrow> entry list \<times> (exc + bool)" where
  "location_changed_loop new_loc prev_loc [] lg result = (lg, Inr result)"
| "location_changed_loop new_loc prev_loc (attribute # rest) lg result =
     (case subscript new_loc attribute of
        Inl e \<Rightarrow> (lg, Inl e)
      | Inr nv \<Rightarrow>
          (case subscript prev_loc attribute of
             Inl e \<Rightarrow> (lg, Inl e)
           | Inr pv \<Rightarrow>
               if nv \<noteq> pv
               then location_changed_loop new_loc prev_loc rest
                      (lg @ [(WARNING, MovedFrom attribute pv nv)]) True
               else location_changed_loop new_loc prev_loc rest lg result))"

definition location_changed :: "pyobj \<Rightarrow> pyobj \<Rightarrow> entry list \<times> (exc + bool)" where
  "location_changed new_loc prev_loc =
     (case prev_loc of
        None \<Rightarrow> ([], Inr False)
      | Some p \<Rightarrow>
          location_changed_loop new_loc prev_loc [''mcc'', ''mnc'', ''lac'', ''cellId''] [] False)"

section \<open>The scheduler\<close>

text \<open>
  The arguments an invocation of \<^verbatim>\<open>get_location_and_make_noise\<close> is scheduled with;
  the scheduler itself, the sixth element of the tuple, is the state below.
\<close>

record tick_args =
  account_id :: string
  api_key :: string
  device_id :: string
  device_id_type :: string
  original_location :: pyobj

text \<open>
  \<^verbatim>\<open>sched.scheduler(time.time, time.sleep)\<close>: a clock and a queue of events kept in
  the order of their time, then their priority, then their entry. Seconds are real numbers
  (the rounding of the interpreter's floats is left out). The state carries the records
  logged so far as well.
\<close>

record event =
  time :: real
  priority :: nat
  argument :: tick_args

record world =
  logged :: "entry list"
  clock :: real
  queue :: "event list"

fun insert_event :: "event \<Rightarrow> event list \<Rightarrow> event list" where
  "insert_event e [] = [e]"
| "insert_event e (x # xs) =
     (if time e < time x \<or> (time e = time x \<and> priority e < priority x)
      then e # x # xs else x # insert_event e xs)"

text \<open>\<^verbatim>\<open>scheduler.enter(delay, priority, action, argument)\<close>: due at now + delay.\<close>

definition enter :: "real \<Rightarrow> nat \<Rightarrow> tick_args \<Rightarrow> world \<Rightarrow> world" where
  "enter delay prio args w =
     w\<lparr>queue := insert_event \<lparr>time = clock w + delay, priority = prio, argument = args\<rparr> (queue w)\<rparr>"

section \<open>The sampling step\<close>

text \<open>
  What the outside world does during one invocation: the outcome of
  \<^verbatim>\<open>aerframesdk.get_location(account_id, api_key, device_id_type, device_id)\<close>, a value
  or an exception, and the seconds that pass before the invocation reads the clock again
  in \<^verbatim>\<open>scheduler.enter\<close>.
\<close>

record tick_env =
  get_location :: "string \<Rightarrow> string \<Rightarrow> string \<Rightarrow> string \<Rightarrow> exc + pyobj"
  elapsed :: real

text \<open>The call of the provider's API as the invocation makes it.\<close>

definition fetch :: "tick_env \<Rightarrow> tick_args \<Rightarrow> exc + pyobj" where
  "fetch env a = get_location env (account_id a) (api_key a) (device_id_type a) (device_id a)"

definition LOCATION_REQUEST_PERIOD_SECONDS :: real where
  "LOCATION_REQUEST_PERIOD_SECONDS = 60 * 60"

text \<open>
  The body of the \<^verbatim>\<open>try\<close> block:
  \<^verbatim>\<open>
  new_location = aerframesdk.get_location(account_id, api_key, device_id_type, device_id)
  logger.debug(f'Latest location = {new_location}')
  if is_location_present(new_location):
      if original_location is None:
          original_location = new_location
          logger.info(f'The original "stay-put" location of the device is {original_location}')
      if location_changed(new_location, original_location):
          logger.warn(f'The device moved!')
  \<close>
  It yields the records logged, the value of \<^verbatim>\<open>original_location\<close> when the block is
  left, and the exception that left it, if any.
\<close>

definition try_body :: "tick_env \<Rightarrow> tick_args \<Rightarrow> entry list \<times> pyobj \<times> exc option" where
  "try_body env a =
     (case fetch env a of
        Inl e \<Rightarrow> ([], original_location a, Some e)
      | Inr new_location \<Rightarrow>
          (let lg = [(DEBUG, LatestLocation new_location)] in
           case is_location_present new_location of
             Inl e \<Rightarrow> (lg, original_location a, Some e)
           | Inr present \<Rightarrow>
               if present then
                 (let (lg, orig) =
                        (case original_location a of
                           None \<Rightarrow> (lg @ [(INFO, StayPutLocation new_location)], new_location)
                         | Some b \<Rightarrow> (lg, original_location a))
                  in case location_changed new_location orig of
                       (lc, Inl e) \<Rightarrow> (lg @ lc, orig, Some e)
                     | (lc, Inr changed) \<Rightarrow>
                         if changed then (lg @ lc @ [(WARNING, DeviceMoved)], orig, None)
                         else (lg @ lc, orig, None))
               else (lg, original_location a, None)))"

text \<open>
  The two handlers: \<^verbatim>\<open>except ApiException\<close> first, \<^verbatim>\<open>except BaseException\<close> for
  everything else; both log at level ERROR and go on.
\<close>

definition handlers :: "exc option \<Rightarrow> entry list" where
  "handlers raised =
     (case raised of
        None \<Rightarrow> []
      | Some e \<Rightarrow>
          (case e of
             ApiException \<Rightarrow> [(ERROR, ApiProblem e)]
           | KeyError k \<Rightarrow> [(ERROR, HorriblyWrong e)]
           | TypeError \<Rightarrow> [(ERROR, HorriblyWrong e)]
           | OtherError m \<Rightarrow> [(ERROR, HorriblyWrong e)]))"

text \<open>The records one invocation logs, and the baseline it passes on.\<close>

definition tick_log :: "tick_env \<Rightarrow> tick_args \<Rightarrow> entry list" where
  "tick_log env a = fst (try_body env a) @ handlers (snd (snd (try_body env a)))"

definition tick_baseline :: "tick_env \<Rightarrow> tick_args \<Rightarrow> pyobj" where
  "tick_baseline env a = fst (snd (try_body env a))"

definition tick_raised :: "tick_env \<Rightarrow> tick_args \<Rightarrow> exc option" where
  "tick_raised env a = snd (snd (try_body env a))"

text \<open>
  \<^verbatim>\<open>get_location_and_make_noise\<close>: the \<^verbatim>\<open>try\<close> block, its handlers, and then, outside
  of them,
  \<^verbatim>\<open>
  scheduler.enter(LOCATION_REQUEST_PERIOD_SECONDS, 1, get_location_and_make_noise,
                  (account_id, api_key, device_id, device_id_type, scheduler, original_location))
  \<close>
\<close>

definition get_location_and_make_noise :: "tick_env \<Rightarrow> tick_args \<Rightarrow> world \<Rightarrow> world" where
  "get_location_and_make_noise env a w =
     enter LOCATION_REQUEST_PERIOD_SECONDS 1
       (a\<lparr>original_location := tick_baseline env a\<rparr>)
       (w\<lparr>logged := logged w @ tick_log env a, clock := clock w + elapsed env\<rparr>)"

section \<open>The loop\<close>

text \<open>
  \<^verbatim>\<open>scheduler.run()\<close> leaves its loop when the queue is empty; otherwise it sleeps until
  the first event is due, removes it and calls its action. The fuel bounds the number of
  actions called; the result tells how many were, and the state reached.
\<close>

fun run :: "nat \<Rightarrow> (nat \<Rightarrow> tick_env) \<Rightarrow> nat \<Rightarrow> world \<Rightarrow> nat \<times> world" where
  "run 0 envs i w = (i, w)"
| "run (Suc fuel) envs i w =
     (case queue w of
        [] \<Rightarrow> (i, w)
      | e # q \<Rightarrow>
          run fuel envs (Suc i)
            (get_location_and_make_noise (envs i) (argument e)
               (w\<lparr>clock := max (clock w) (time e), queue := q\<rparr>)))"

text \<open>
  \<^verbatim>\<open>
  def begin_loop(account_id, api_key, device_id, device_id_type):
      scheduler = sched.scheduler(time.time, time.sleep)
      scheduler.enter(1, 1, get_location_and_make_noise,
                      (account_id, api_key, device_id, device_id_type, scheduler, None))
      scheduler.run()
  \<close>
  started at the time \<open>now\<close>.
\<close>

definition begin_args :: "string \<Rightarrow> string \<Rightarrow> string \<Rightarrow> string \<Rightarrow> tick_args" where
  "begin_args aid key did dtype =
     \<lparr>account_id = aid, api_key = key, device_id = did, device_id_type = dtype,
      original_location = None\<rparr>"

definition begin_loop ::
  "string \<Rightarrow> string \<Rightarrow> string \<Rightarrow> string \<Rightarrow> real \<Rightarrow> nat \<Rightarrow> (nat \<Rightarrow> tick_env) \<Rightarrow> nat \<times> world" where
  "begin_loop aid key did dtype now fuel envs =
     run fuel envs 0
       (enter 1 1 (begin_args aid key did dtype) \<lparr>logged = [], clock = now, queue = []\<rparr>)"

section \<open>Sample data\<close>

text \<open>
  Two present locations that differ in the cell identifier only, the provider's
  "no location" answer, and a dict that has a country code and nothing else.
\<close>

definition loc_A :: loc where
  "loc_A = [''mcc'' \<mapsto> PyInt 310, ''mnc'' \<mapsto> PyInt 410, ''lac'' \<mapsto> PyInt 56,
            ''cellId'' \<mapsto> PyInt 7]"

definition loc_B :: loc where
  "loc_B = [''mcc'' \<mapsto> PyInt 310, ''mnc'' \<mapsto> PyInt 410, ''lac'' \<mapsto> PyInt 56,
            ''cellId'' \<mapsto> PyInt 8]"

definition loc_absent :: loc where
  "loc_absent = [''mcc'' \<mapsto> PyInt 0, ''mnc'' \<mapsto> PyInt 0, ''lac'' \<mapsto> PyInt 0,
                 ''cellId'' \<mapsto> PyInt 0]"

definition loc_partial :: loc where
  "loc_partial = [''mcc'' \<mapsto> PyInt 310]"

text \<open>An invocation during which the provider answers \<open>r\<close> and two seconds pass.\<close>

definition env_of :: "exc + pyobj \<Rightarrow> tick_env" where
  "env_of r = \<lparr>get_location = (\<lambda>aid key dtype did. r), elapsed = 2\<rparr>"

definition args_of :: "pyobj \<Rightarrow> tick_args" where
  "args_of b =
     (begin_args ''acct'' ''key'' ''204043398999957'' ''IMSI'')\<lparr>original_location := b\<rparr>"

definition world_at :: "real \<Rightarrow> world" where
  "world_at now = \<lparr>logged = [], clock = now, queue = []\<rparr>"

section \<open>Facts about the helpers\<close>

lemma loop_same_log:
  "fst (location_changed_loop x x as lg r) = lg"
  by (induction as arbitrary: lg r) (simp_all split: sum.splits)

lemma loop_same_result:
  "snd (location_changed_loop x x as lg r) = Inr b \<Longrightarrow> b = r"
  by (induction as arbitrary: lg r) (simp_all split: sum.splits)

lemma location_changed_same:
  "fst (location_changed x x) = []" "snd (location_changed x x) \<noteq> Inr True"
proof -
  let ?as = "[''mcc'', ''mnc'', ''lac'', ''cellId'']"
  show "fst (location_changed x x) = []"
    by (cases x)
      (simp_all add: location_changed_def loop_same_log del: location_changed_loop.simps)
  show "snd (location_changed x x) \<noteq> Inr True"
  proof (cases x)
    case None
    then show ?thesis by (simp add: location_changed_def)
  next
    case (Some d)
    have "snd (location_changed_loop x x ?as [] False) \<noteq> Inr True"
      using loop_same_result [of x ?as "[]" False True] by blast
    with Some show ?thesis
      by (simp add: location_changed_def del: location_changed_loop.simps)
  qed
qed

lemma location_changed_fields_same:
  "has_fields d \<Longrightarrow> location_changed (Some d) (Some d) = ([], Inr False)"
  by (auto simp: location_changed_def has_fields_def subscript_def)

lemma is_location_present_Some:
  "is_location_present new = Inr b \<Longrightarrow> new \<noteq> None"
  by (auto simp: is_location_present_def subscript_def split: option.splits)

section \<open>Facts about one invocation\<close>

lemma handlers_cases:
  "handlers (Some e) = [(ERROR, ApiProblem e)] \<or> handlers (Some e) = [(ERROR, HorriblyWrong e)]"
  by (cases e) (simp_all add: handlers_def)

lemma handlers_level: "x \<in> set (handlers r) \<Longrightarrow> fst x = ERROR"
  by (cases r; simp add: handlers_def split: exc.splits)

lemma queue_tick:
  "queue (get_location_and_make_noise env a w) =
     insert_event
       \<lparr>time = clock w + elapsed env + LOCATION_REQUEST_PERIOD_SECONDS, priority = 1,
        argument = a\<lparr>original_location := tick_baseline env a\<rparr>\<rparr> (queue w)"
  by (simp add: get_location_and_make_noise_def enter_def)

lemma logged_tick:
  "logged (get_location_and_make_noise env a w) = logged w @ tick_log env a"
  by (simp add: get_location_and_make_noise_def enter_def)

lemma clock_tick:
  "clock (get_location_and_make_noise env a w) = clock w + elapsed env"
  by (simp add: get_location_and_make_noise_def enter_def)

lemma try_body_kept:
  assumes "original_location a = Some b"
  shows "fst (snd (try_body env a)) = Some b"
  using assms
  by (simp add: try_body_def Let_def split: sum.splits prod.splits)

lemma try_body_fetch_raises:
  "fetch env a = Inl e \<Longrightarrow> try_body env a = ([], original_location a, Some e)"
  by (simp add: try_body_def)

lemma try_body_absent:
  assumes "fetch env a = Inr new" and "is_location_present new = Inr False"
  shows "try_body env a = ([(DEBUG, LatestLocation new)], original_location a, None)"
  using assms by (simp add: try_body_def)

lemma try_body_adopt:
  assumes "fetch env a = Inr new" and "is_location_present new = Inr True"
    and "original_location a = None"
  shows "try_body env a =
     ([(DEBUG, LatestLocation new), (INFO, StayPutLocation new)], new,
      (case snd (location_changed new new) of Inl e \<Rightarrow> Some e | Inr c \<Rightarrow> None))"
proof -
  obtain lc r where lc: "location_changed new new = (lc, r)"
    by (cases "location_changed new new")
  have "lc = []" and "r \<noteq> Inr True"
    using location_changed_same [of new] lc by simp_all
  with assms lc show ?thesis
    by (cases r) (simp_all add: try_body_def)
qed

lemma tick_baseline_kept:
  assumes "original_location a \<noteq> None"
  shows "tick_baseline env a = original_location a"
proof -
  from assms obtain b where "original_location a = Some b" by blast
  then show ?thesis
    using try_body_kept [of a b env] by (simp add: tick_baseline_def)
qed

lemma tick_baseline_changes:
  assumes "tick_baseline env a \<noteq> original_location a"
  shows "original_location a = None \<and> fetch env a = Inr (tick_baseline env a)
         \<and> is_location_present (tick_baseline env a) = Inr True"
proof (cases "fetch env a")
  case (Inl e)
  with assms show ?thesis by (simp add: tick_baseline_def try_body_fetch_raises)
next
  case (Inr new)
  show ?thesis
  proof (cases "is_location_present new")
    case (Inl e)
    with Inr assms show ?thesis by (simp add: tick_baseline_def try_body_def)
  next
    case present: (Inr b)
    show ?thesis
    proof (cases "original_location a")
      case None
      show ?thesis
      proof (cases b)
        case True
        with Inr present None show ?thesis
          by (simp add: tick_baseline_def try_body_adopt)
      next
        case False
        with Inr present assms show ?thesis
          by (simp add: tick_baseline_def try_body_absent)
      qed
    next
      case (Some old)
      with assms show ?thesis
        using tick_baseline_kept [of a env] by simp
    qed
  qed
qed

lemma tick_log_raised:
  "tick_raised env a = Some e \<Longrightarrow>
     tick_log env a = fst (try_body env a) @ [(ERROR, ApiProblem e)]
     \<or> tick_log env a = fst (try_body env a) @ [(ERROR, HorriblyWrong e)]"
  using handlers_cases [of e] by (auto simp: tick_log_def tick_raised_def)

lemma tick_raised_after_adoption:
  assumes r: "tick_raised env a = Some e"
    and ch: "tick_baseline env a \<noteq> original_location a"
  shows "snd (location_changed (tick_baseline env a) (tick_baseline env a)) = Inl e"
proof -
  from tick_baseline_changes [OF ch]
  have n: "original_location a = None" and f: "fetch env a = Inr (tick_baseline env a)"
    and p: "is_location_present (tick_baseline env a) = Inr True"
    by simp_all
  from r show ?thesis
    unfolding tick_raised_def try_body_adopt [OF f p n]
    by (simp split: sum.splits)
qed

section \<open>Facts about the loop\<close>

lemma period_3600: "LOCATION_REQUEST_PERIOD_SECONDS = 3600"
  by (simp add: LOCATION_REQUEST_PERIOD_SECONDS_def)

lemma run_empty: "queue w = [] \<Longrightarrow> run fuel envs i w = (i, w)"
  by (cases fuel) simp_all

lemma run_add:
  "run (m + n) envs i w = run n envs (fst (run m envs i w)) (snd (run m envs i w))"
proof (induction m arbitrary: i w)
  case 0
  show ?case by simp
next
  case (Suc m)
  show ?case
  proof (cases "queue w")
    case Nil
    then show ?thesis by (simp add: run_empty)
  next
    case (Cons e q)
    then show ?thesis by (simp add: Suc.IH)
  qed
qed

lemma tick_on_single:
  assumes "queue w = [e]"
    and "w' = get_location_and_make_noise env (argument e)
                (w\<lparr>clock := max (clock w) (time e), queue := []\<rparr>)"
  shows "clock w' = max (clock w) (time e) + elapsed env"
    and "queue w' =
       [\<lparr>time = clock w' + LOCATION_REQUEST_PERIOD_SECONDS, priority = 1,
         argument = (argument e)\<lparr>original_location := tick_baseline env (argument e)\<rparr>\<rparr>]"
  using assms by (simp_all add: clock_tick queue_tick)

text \<open>
  With one event pending, every unit of fuel is spent on an invocation, and one event is
  pending afterwards: the one the last invocation entered, due one period after the
  clock it read.
\<close>

lemma run_single:
  assumes "queue w = [e]"
  shows "fst (run fuel envs i w) = i + fuel
     \<and> (\<exists>b. queue (snd (run fuel envs i w)) =
           [\<lparr>time = (if fuel = 0 then time e
                     else clock (snd (run fuel envs i w)) + LOCATION_REQUEST_PERIOD_SECONDS),
             priority = (if fuel = 0 then priority e else 1),
             argument = (argument e)\<lparr>original_location := b\<rparr>\<rparr>])"
  using assms
proof (induction fuel arbitrary: i w e)
  case 0
  then show ?case
    by (intro conjI exI [of _ "original_location (argument e)"]) simp_all
next
  case (Suc fuel)
  define w' where "w' = get_location_and_make_noise (envs i) (argument e)
                    (w\<lparr>clock := max (clock w) (time e), queue := []\<rparr>)"
  define e' where "e' = \<lparr>time = clock w' + LOCATION_REQUEST_PERIOD_SECONDS, priority = 1,
         argument = (argument e)\<lparr>original_location := tick_baseline (envs i) (argument e)\<rparr>\<rparr>"
  have q': "queue w' = [e']"
    unfolding e'_def using tick_on_single(2) [OF Suc.prems w'_def] by simp
  have step: "run (Suc fuel) envs i w = run fuel envs (Suc i) w'"
    using Suc.prems by (simp add: w'_def)
  show ?case
  proof (cases fuel)
    case 0
    with q' show ?thesis
      unfolding step by (auto simp: e'_def)
  next
    case (Suc k)
    from Suc.IH [OF q', of "Suc i"] Suc show ?thesis
      unfolding step by (auto simp: e'_def)
  qed
qed

lemma run_period:
  assumes "queue w = [e]"
  shows "clock (snd (run (Suc (Suc fuel)) envs i w)) =
     clock (snd (run (Suc fuel) envs i w)) + LOCATION_REQUEST_PERIOD_SECONDS
       + elapsed (envs (i + Suc fuel))"
proof -
  define j where "j = fst (run (Suc fuel) envs i w)"
  define v where "v = snd (run (Suc fuel) envs i w)"
  from run_single [OF assms, of "Suc fuel" envs i]
  obtain b where j: "j = i + Suc fuel"
    and q: "queue v = [\<lparr>time = clock v + LOCATION_REQUEST_PERIOD_SECONDS, priority = 1,
                       argument = (argument e)\<lparr>original_location := b\<rparr>\<rparr>]"
    unfolding j_def v_def by auto
  have "run (Suc (Suc fuel)) envs i w = run 1 envs j v"
    using run_add [of "Suc fuel" 1 envs i w] by (simp add: j_def v_def)
  also have "snd (run 1 envs j v) =
      get_location_and_make_noise (envs j) ((argument e)\<lparr>original_location := b\<rparr>)
        (v\<lparr>clock := max (clock v) (clock v + LOCATION_REQUEST_PERIOD_SECONDS), queue := []\<rparr>)"
    using q by simp
  finally show ?thesis
    by (simp add: clock_tick j v_def max_def period_3600)
qed

lemma begin_queue:
  "queue (enter 1 1 args \<lparr>logged = [], clock = now, queue = []\<rparr>) =
     [\<lparr>time = now + 1, priority = 1, argument = args\<rparr>]"
  by (simp add: enter_def)

lemma run_baseline_kept:
  assumes "queue w = [e]" and "original_location (argument e) = Some b"
  shows "\<exists>e'. queue (snd (run fuel envs i w)) = [e'] \<and> original_location (argument e') = Some b"
  using assms
proof (induction fuel arbitrary: i w e)
  case 0
  then show ?case by simp
next
  case (Suc fuel)
  define w' where "w' = get_location_and_make_noise (envs i) (argument e)
                    (w\<lparr>clock := max (clock w) (time e), queue := []\<rparr>)"
  define e' where "e' = \<lparr>time = clock w' + LOCATION_REQUEST_PERIOD_SECONDS, priority = 1,
         argument = (argument e)\<lparr>original_location := tick_baseline (envs i) (argument e)\<rparr>\<rparr>"
  have q': "queue w' = [e']"
    unfolding e'_def using tick_on_single(2) [OF Suc.prems(1) w'_def] by simp
  have "tick_baseline (envs i) (argument e) = Some b"
    using try_body_kept [OF Suc.prems(2)] by (simp add: tick_baseline_def)
  then have b': "original_location (argument e') = Some b"
    by (simp add: e'_def)
  have step: "run (Suc fuel) envs i w = run fuel envs (Suc i) w'"
    using Suc.prems(1) by (simp add: w'_def)
  from Suc.IH [OF q' b'] show ?case
    unfolding step .
qed

section \<open>Facts about the sample data\<close>

lemma sample_fields:
  "loc_A ''mcc'' = Some (PyInt 310)" "loc_A ''mnc'' = Some (PyInt 410)"
  "loc_A ''lac'' = Some (PyInt 56)" "loc_A ''cellId'' = Some (PyInt 7)"
  "loc_B ''mcc'' = Some (PyInt 310)" "loc_B ''mnc'' = Some (PyInt 410)"
  "loc_B ''lac'' = Some (PyInt 56)" "loc_B ''cellId'' = Some (PyInt 8)"
  "loc_absent ''mcc'' = Some (PyInt 0)"
  "loc_partial ''mcc'' = Some (PyInt 310)" "loc_partial ''mnc'' = None"
  "loc_partial ''lac'' = None" "loc_partial ''cellId'' = None"
  by (simp_all add: loc_A_def loc_B_def loc_absent_def loc_partial_def)

lemma sample_has_fields [simp]: "has_fields loc_A" "has_fields loc_B" "has_fields loc_absent"
  by (simp_all add: has_fields_def loc_A_def loc_B_def loc_absent_def)

lemma sample_env [simp]: "fetch (env_of r) a = r" "elapsed (env_of r) = 2"
  by (simp_all add: fetch_def env_of_def)

lemma sample_args [simp]:
  "original_location (args_of b) = b" "(args_of b)\<lparr>original_location := c\<rparr> = args_of c"
  by (simp_all add: args_of_def)

lemma sample_world [simp]:
  "logged (world_at now) = []" "clock (world_at now) = now" "queue (world_at now) = []"
  by (simp_all add: world_at_def)

lemma sample_present [simp]:
  "is_location_present (Some loc_A) = Inr True"
  "is_location_present (Some loc_B) = Inr True"
  "is_location_present (Some loc_absent) = Inr False"
  "is_location_present (Some loc_partial) = Inr True"
  by (simp_all add: is_location_present_def subscript_def sample_fields)

lemma sample_changed [simp]:
  "location_changed (Some loc_A) (Some loc_A) = ([], Inr False)"
  "location_changed (Some loc_B) (Some loc_A) =
     ([(WARNING, MovedFrom ''cellId'' (PyInt 7) (PyInt 8))], Inr True)"
  "location_changed (Some loc_partial) (Some loc_partial) = ([], Inl (KeyError ''mnc''))"
  by (simp_all add: location_changed_def subscript_def sample_fields)

lemma sample_try:
  "try_body (env_of (Inr (Some loc_A))) (args_of None) =
     ([(DEBUG, LatestLocation (Some loc_A)), (INFO, StayPutLocation (Some loc_A))],
      Some loc_A, None)"
  "try_body (env_of (Inr (Some loc_B))) (args_of (Some loc_A)) =
     ([(DEBUG, LatestLocation (Some loc_B)),
       (WARNING, MovedFrom ''cellId'' (PyInt 7) (PyInt 8)), (WARNING, DeviceMoved)],
      Some loc_A, None)"
  "try_body (env_of (Inr (Some loc_partial))) (args_of None) =
     ([(DEBUG, LatestLocation (Some loc_partial)), (INFO, StayPutLocation (Some loc_partial))],
      Some loc_partial, Some (KeyError ''mnc''))"
  by (simp_all add: try_body_def)

lemma sample_tick:
  "tick_baseline (env_of (Inr (Some loc_B))) (args_of (Some loc_A)) = Some loc_A"
  "tick_log (env_of (Inr (Some loc_B))) (args_of (Some loc_A)) =
     [(DEBUG, LatestLocation (Some loc_B)),
      (WARNING, MovedFrom ''cellId'' (PyInt 7) (PyInt 8)), (WARNING, DeviceMoved)]"
  "tick_baseline (env_of (Inr (Some loc_A))) (args_of None) = Some loc_A"
  "tick_raised (env_of (Inr (Some loc_A))) (args_of None) = None"
  "tick_baseline (env_of (Inr (Some loc_partial))) (args_of None) = Some loc_partial"
  "tick_raised (env_of (Inr (Some loc_partial))) (args_of None) = Some (KeyError ''mnc'')"
  "tick_log (env_of (Inr (Some loc_partial))) (args_of None) =
     [(DEBUG, LatestLocation (Some loc_partial)), (INFO, StayPutLocation (Some loc_partial)),
      (ERROR, HorriblyWrong (KeyError ''mnc''))]"
  by (simp_all add: tick_baseline_def tick_raised_def tick_log_def sample_try handlers_def)

section \<open>The comparator and the presence test\<close>

text \<open>
  C1: for two location records that both have the fields \<^verbatim>\<open>mcc\<close>, \<^verbatim>\<open>mnc\<close>,
  \<^verbatim>\<open>lac\<close> and \<^verbatim>\<open>cellId\<close>, \<^verbatim>\<open>location_changed(new, prev)\<close> returns True exactly
  when at least one of the four fields differs; in particular it returns True when exactly
  one of them differs. It logs one warning for each field that differs, in the order of the
  fields, naming the field, the old value and the new value.
\<close>

theorem location_changed_iff:
  assumes "has_fields n" and "has_fields p"
  shows "snd (location_changed (Some n) (Some p)) =
       Inr (n ''mcc'' \<noteq> p ''mcc'' \<or> n ''mnc'' \<noteq> p ''mnc''
            \<or> n ''lac'' \<noteq> p ''lac'' \<or> n ''cellId'' \<noteq> p ''cellId'')
     \<and> fst (location_changed (Some n) (Some p)) =
       concat (map (\<lambda>a. if n a \<noteq> p a
                         then [(WARNING, MovedFrom a (the (p a)) (the (n a)))] else [])
                 [''mcc'', ''mnc'', ''lac'', ''cellId''])"
  using assms
  by (auto simp: location_changed_def has_fields_def subscript_def)

theorem location_changed_iff_witness:
  "has_fields loc_B \<and> has_fields loc_A
   \<and> snd (location_changed (Some loc_B) (Some loc_A)) = Inr True
   \<and> fst (location_changed (Some loc_B) (Some loc_A)) =
       [(WARNING, MovedFrom ''cellId'' (PyInt 7) (PyInt 8))]
   \<and> snd (location_changed (Some loc_A) (Some loc_A)) = Inr False"
  using location_changed_iff [of loc_B loc_A] location_changed_iff [of loc_A loc_A]
  by (simp add: sample_fields)

text \<open>
  C4: for a location record with an \<^verbatim>\<open>mcc\<close> field, \<^verbatim>\<open>is_location_present\<close> returns
  False exactly when that field equals zero, and True for every other value.
\<close>

theorem is_location_present_iff:
  assumes "L ''mcc'' = Some v"
  shows "is_location_present (Some L) = Inr (v \<noteq> PyInt 0)"
  using assms by (simp add: is_location_present_def subscript_def)

theorem is_location_present_iff_witness:
  "loc_absent ''mcc'' = Some (PyInt 0)
   \<and> is_location_present (Some loc_absent) = Inr False
   \<and> loc_A ''mcc'' = Some (PyInt 310)
   \<and> is_location_present (Some loc_A) = Inr True"
  using is_location_present_iff [of loc_absent "PyInt 0"]
    is_location_present_iff [of loc_A "PyInt 310"]
  by (simp add: sample_fields)

text \<open>
  C5: \<^verbatim>\<open>location_changed(L, None)\<close> returns False whatever \<^verbatim>\<open>L\<close> is (None, a dict
  with or without the fields); no field of \<^verbatim>\<open>L\<close> is read, so nothing can raise, and no
  log record is written.
\<close>

theorem location_changed_prev_None:
  "location_changed L None = ([], Inr False)"
  by (simp add: location_changed_def)

theorem location_changed_prev_None_witness:
  "location_changed None None = ([], Inr False)
   \<and> location_changed (Some Map.empty) None = ([], Inr False)
   \<and> location_changed (Some loc_partial) None = ([], Inr False)"
  by (simp add: location_changed_prev_None [of None]
      location_changed_prev_None [of "Some Map.empty"]
      location_changed_prev_None [of "Some loc_partial"])

text \<open>
  C6: the comparator is reflexive: for every location record \<^verbatim>\<open>L\<close> that has the four
  fields (present or not), \<^verbatim>\<open>location_changed(L, L)\<close> returns False and logs nothing.
\<close>

theorem location_changed_refl:
  assumes "has_fields L"
  shows "location_changed (Some L) (Some L) = ([], Inr False)"
proof -
  from assms obtain a b c d where
    "L ''mcc'' = Some a" "L ''mnc'' = Some b" "L ''lac'' = Some c" "L ''cellId'' = Some d"
    by (auto simp: has_fields_def)
  then show ?thesis
    by (simp add: location_changed_def subscript_def)
qed

theorem location_changed_refl_witness:
  "has_fields loc_B \<and> location_changed (Some loc_B) (Some loc_B) = ([], Inr False)"
  using location_changed_refl [of loc_B] by simp

text \<open>
  C10: when \<^verbatim>\<open>prev\<close> is a dict, \<^verbatim>\<open>location_changed(new, prev)\<close> reads all four fields
  of both arguments: the call raises, and returns no boolean, exactly when \<^verbatim>\<open>new\<close> is
  None or one of the two dicts lacks one of the four fields; with \<^verbatim>\<open>new\<close> None the
  exception is a TypeError. With \<^verbatim>\<open>prev\<close> None the call never raises.
\<close>

theorem location_changed_raises_iff:
  "isl (snd (location_changed new (Some p))) =
     (case new of None \<Rightarrow> True | Some n \<Rightarrow> \<not> (has_fields n \<and> has_fields p))
   \<and> snd (location_changed None (Some p)) = Inl TypeError
   \<and> \<not> isl (snd (location_changed new None))"
  by (auto simp: location_changed_def has_fields_def subscript_def split: option.splits)

theorem location_changed_raises_iff_witness:
  "isl (snd (location_changed None (Some loc_A)))
   \<and> isl (snd (location_changed (Some loc_partial) (Some loc_A)))
   \<and> isl (snd (location_changed (Some loc_A) (Some loc_partial)))
   \<and> \<not> isl (snd (location_changed (Some loc_B) (Some loc_A)))
   \<and> \<not> isl (snd (location_changed (Some loc_partial) None))"
  using location_changed_raises_iff [of None loc_A]
    location_changed_raises_iff [of "Some loc_partial" loc_A]
    location_changed_raises_iff [of "Some loc_A" loc_partial]
    location_changed_raises_iff [of "Some loc_B" loc_A]
    location_changed_raises_iff [of "Some loc_partial" loc_A]
  by (simp add: has_fields_def sample_fields)

section \<open>One invocation of the sampling step\<close>

text \<open>
  C2: the baseline is immutable once set. For every invocation of
  \<^verbatim>\<open>get_location_and_make_noise\<close> whose incoming \<^verbatim>\<open>original_location\<close> is not None,
  whatever the provider answers or raises, the invocation scheduled next gets the same
  arguments, the same baseline among them. An invocation passes on a baseline other than
  the one it got only when it got None and the provider answered a present location, which
  it then passes on, and which is not None. So, in the loop, a baseline that is set stays
  the same after any number of further invocations.
\<close>

theorem baseline_immutable:
  "(original_location a \<noteq> None \<longrightarrow>
      tick_baseline env a = original_location a
      \<and> queue (get_location_and_make_noise env a w) =
          insert_event
            \<lparr>time = clock w + elapsed env + LOCATION_REQUEST_PERIOD_SECONDS, priority = 1,
             argument = a\<rparr> (queue w))
   \<and> (tick_baseline env a \<noteq> original_location a \<longrightarrow>
        original_location a = None \<and> fetch env a = Inr (tick_baseline env a)
        \<and> is_location_present (tick_baseline env a) = Inr True
        \<and> tick_baseline env a \<noteq> None)
   \<and> (queue w = [e] \<and> original_location (argument e) = Some b \<longrightarrow>
        (\<exists>e'. queue (snd (run fuel envs i w)) = [e']
              \<and> original_location (argument e') = Some b))"
proof (intro conjI impI)
  assume "original_location a \<noteq> None"
  then show kept: "tick_baseline env a = original_location a"
    by (rule tick_baseline_kept)
  have "a\<lparr>original_location := tick_baseline env a\<rparr> = a"
    by (simp add: kept)
  then show "queue (get_location_and_make_noise env a w) =
      insert_event
        \<lparr>time = clock w + elapsed env + LOCATION_REQUEST_PERIOD_SECONDS, priority = 1,
         argument = a\<rparr> (queue w)"
    by (simp add: queue_tick)
next
  assume ch: "tick_baseline env a \<noteq> original_location a"
  from tick_baseline_changes [OF ch]
  show "original_location a = None" and "fetch env a = Inr (tick_baseline env a)"
    and p: "is_location_present (tick_baseline env a) = Inr True"
    by simp_all
  from p show "tick_baseline env a \<noteq> None"
    by (rule is_location_present_Some)
next
  assume "queue w = [e] \<and> original_location (argument e) = Some b"
  then show "\<exists>e'. queue (snd (run fuel envs i w)) = [e']
      \<and> original_location (argument e') = Some b"
    using run_baseline_kept [of w e b fuel envs i] by simp
qed

theorem baseline_immutable_witness:
  "original_location (args_of (Some loc_A)) \<noteq> None
   \<and> tick_baseline (env_of (Inr (Some loc_B))) (args_of (Some loc_A)) = Some loc_A
   \<and> queue (get_location_and_make_noise (env_of (Inr (Some loc_B))) (args_of (Some loc_A))
              (world_at 100)) =
       [\<lparr>time = 3702, priority = 1, argument = args_of (Some loc_A)\<rparr>]
   \<and> tick_baseline (env_of (Inr (Some loc_A))) (args_of None) \<noteq> original_location (args_of None)
   \<and> original_location (args_of None) = None
   \<and> fetch (env_of (Inr (Some loc_A))) (args_of None) = Inr (Some loc_A)
   \<and> queue ((world_at 100)\<lparr>queue := [\<lparr>time = 5, priority = 1, argument = args_of (Some loc_A)\<rparr>]\<rparr>) =
       [\<lparr>time = 5, priority = 1, argument = args_of (Some loc_A)\<rparr>]
   \<and> (\<exists>e'. queue (snd (run 3 (\<lambda>i. env_of (Inr (Some loc_B))) 0
                ((world_at 100)\<lparr>queue := [\<lparr>time = 5, priority = 1,
                                            argument = args_of (Some loc_A)\<rparr>]\<rparr>))) = [e']
           \<and> original_location (argument e') = Some loc_A)"
  using baseline_immutable [of "args_of (Some loc_A)" "env_of (Inr (Some loc_B))" "world_at 100"
      "\<lparr>time = 5, priority = 1, argument = args_of (Some loc_A)\<rparr>" loc_A 3
      "\<lambda>i. env_of (Inr (Some loc_B))" 0]
    baseline_immutable [of "args_of None" "env_of (Inr (Some loc_A))"
      "(world_at 100)\<lparr>queue := [\<lparr>time = 5, priority = 1, argument = args_of (Some loc_A)\<rparr>]\<rparr>"
      "\<lparr>time = 5, priority = 1, argument = args_of (Some loc_A)\<rparr>" loc_A 3
      "\<lambda>i. env_of (Inr (Some loc_B))" 0]
  by (simp add: sample_tick period_3600)

text \<open>
  C3, as the code has it: every invocation, whatever happens in it, enters the next one
  with a delay of one period. An exception raised in the \<^verbatim>\<open>try\<close> block is logged at
  level ERROR, after the records written before it, and goes no further. The baseline
  passed on is the incoming one when the provider call itself raised and whenever the
  incoming baseline was set. When the incoming baseline was None and an exception is
  raised all the same after the adoption of the fetched location (by the comparison of
  the fetched location with itself), the fetched location is passed on.
\<close>

theorem tick_crash_isolated:
  "logged (get_location_and_make_noise env a w) = logged w @ tick_log env a
   \<and> queue (get_location_and_make_noise env a w) =
       insert_event
         \<lparr>time = clock w + elapsed env + LOCATION_REQUEST_PERIOD_SECONDS, priority = 1,
          argument = a\<lparr>original_location := tick_baseline env a\<rparr>\<rparr> (queue w)
   \<and> (tick_raised env a = Some e \<longrightarrow>
        (tick_log env a = fst (try_body env a) @ [(ERROR, ApiProblem e)]
         \<or> tick_log env a = fst (try_body env a) @ [(ERROR, HorriblyWrong e)])
        \<and> (original_location a \<noteq> None \<longrightarrow> tick_baseline env a = original_location a)
        \<and> (tick_baseline env a \<noteq> original_location a \<longrightarrow>
             original_location a = None \<and> fetch env a = Inr (tick_baseline env a)
             \<and> snd (location_changed (tick_baseline env a) (tick_baseline env a)) = Inl e))
   \<and> (fetch env a = Inl e \<longrightarrow>
        tick_raised env a = Some e \<and> tick_baseline env a = original_location a
        \<and> tick_log env a = handlers (Some e))"
proof (intro conjI impI)
  show "logged (get_location_and_make_noise env a w) = logged w @ tick_log env a"
    by (rule logged_tick)
  show "queue (get_location_and_make_noise env a w) =
       insert_event
         \<lparr>time = clock w + elapsed env + LOCATION_REQUEST_PERIOD_SECONDS, priority = 1,
          argument = a\<lparr>original_location := tick_baseline env a\<rparr>\<rparr> (queue w)"
    by (rule queue_tick)
next
  assume "tick_raised env a = Some e"
  then show "tick_log env a = fst (try_body env a) @ [(ERROR, ApiProblem e)]
         \<or> tick_log env a = fst (try_body env a) @ [(ERROR, HorriblyWrong e)]"
    by (rule tick_log_raised)
next
  assume "original_location a \<noteq> None"
  then show "tick_baseline env a = original_location a"
    by (rule tick_baseline_kept)
next
  assume r: "tick_raised env a = Some e"
    and ch: "tick_baseline env a \<noteq> original_location a"
  from tick_baseline_changes [OF ch]
  show "original_location a = None" and "fetch env a = Inr (tick_baseline env a)"
    by simp_all
  from r ch show "snd (location_changed (tick_baseline env a) (tick_baseline env a)) = Inl e"
    by (rule tick_raised_after_adoption)
next
  assume f: "fetch env a = Inl e"
  show "tick_raised env a = Some e" and "tick_baseline env a = original_location a"
    and "tick_log env a = handlers (Some e)"
    by (simp_all add: tick_raised_def tick_baseline_def tick_log_def
        try_body_fetch_raises [OF f])
qed

theorem tick_crash_isolated_witness:
  "fetch (env_of (Inl ApiException)) (args_of (Some loc_A)) = Inl ApiException
   \<and> tick_raised (env_of (Inl ApiException)) (args_of (Some loc_A)) = Some ApiException
   \<and> tick_baseline (env_of (Inl ApiException)) (args_of (Some loc_A)) = Some loc_A
   \<and> tick_log (env_of (Inl ApiException)) (args_of (Some loc_A)) =
       [(ERROR, ApiProblem ApiException)]
   \<and> queue (get_location_and_make_noise (env_of (Inl ApiException)) (args_of (Some loc_A))
              (world_at 100)) =
       [\<lparr>time = 3702, priority = 1, argument = args_of (Some loc_A)\<rparr>]
   \<and> tick_raised (env_of (Inr (Some loc_partial))) (args_of None) = Some (KeyError ''mnc'')
   \<and> tick_baseline (env_of (Inr (Some loc_partial))) (args_of None)
       \<noteq> original_location (args_of None)
   \<and> snd (location_changed (Some loc_partial) (Some loc_partial)) = Inl (KeyError ''mnc'')"
  using tick_crash_isolated [of "env_of (Inl ApiException)" "args_of (Some loc_A)" "world_at 100"
      ApiException]
    tick_crash_isolated [of "env_of (Inr (Some loc_partial))" "args_of None" "world_at 100"
      "KeyError ''mnc''"]
  by (simp add: sample_tick period_3600 handlers_def)

text \<open>
  C3, as the claim has it, fails: with no baseline yet, the provider answers a dict that
  has a nonzero \<^verbatim>\<open>mcc\<close> and no other field. The invocation adopts it, the comparison
  then raises \<^verbatim>\<open>KeyError('mnc')\<close>, the handler logs it, and the next invocation is
  entered with the adopted dict as its baseline, not with None.
\<close>

theorem tick_error_after_adoption:
  "fetch (env_of (Inr (Some loc_partial))) (args_of None) = Inr (Some loc_partial)
   \<and> original_location (args_of None) = None
   \<and> tick_raised (env_of (Inr (Some loc_partial))) (args_of None) = Some (KeyError ''mnc'')
   \<and> logged (get_location_and_make_noise (env_of (Inr (Some loc_partial))) (args_of None)
               (world_at 100)) =
       [(DEBUG, LatestLocation (Some loc_partial)), (INFO, StayPutLocation (Some loc_partial)),
        (ERROR, HorriblyWrong (KeyError ''mnc''))]
   \<and> queue (get_location_and_make_noise (env_of (Inr (Some loc_partial))) (args_of None)
              (world_at 100)) =
       [\<lparr>time = 3702, priority = 1, argument = args_of (Some loc_partial)\<rparr>]
   \<and> original_location (args_of (Some loc_partial)) \<noteq> original_location (args_of None)"
  by (simp add: logged_tick queue_tick sample_tick period_3600)

text \<open>
  C7: absent locations are inert. When the provider answers a location \<^verbatim>\<open>L\<close> for which
  \<^verbatim>\<open>is_location_present\<close> returns False, the invocation passes on the baseline it got
  (None stays None, a set baseline stays as it was), raises nothing, and writes one log
  record only, the one at level DEBUG; the comparison is not made.
\<close>

theorem absent_location_inert:
  assumes "fetch env a = Inr L" and "is_location_present L = Inr False"
  shows "tick_baseline env a = original_location a
     \<and> tick_raised env a = None
     \<and> tick_log env a = [(DEBUG, LatestLocation L)]
     \<and> logged (get_location_and_make_noise env a w) = logged w @ [(DEBUG, LatestLocation L)]
     \<and> queue (get_location_and_make_noise env a w) =
         insert_event
           \<lparr>time = clock w + elapsed env + LOCATION_REQUEST_PERIOD_SECONDS, priority = 1,
            argument = a\<rparr> (queue w)"
proof -
  note body = try_body_absent [OF assms]
  have b: "tick_baseline env a = original_location a"
    and r: "tick_raised env a = None"
    and l: "tick_log env a = [(DEBUG, LatestLocation L)]"
    by (simp_all add: tick_baseline_def tick_raised_def tick_log_def body handlers_def)
  have "a\<lparr>original_location := tick_baseline env a\<rparr> = a"
    by (simp add: b)
  with b r l show ?thesis
    by (simp add: logged_tick queue_tick)
qed

theorem absent_location_inert_witness:
  "fetch (env_of (Inr (Some loc_absent))) (args_of None) = Inr (Some loc_absent)
   \<and> is_location_present (Some loc_absent) = Inr False
   \<and> tick_baseline (env_of (Inr (Some loc_absent))) (args_of None) = None
   \<and> logged (get_location_and_make_noise (env_of (Inr (Some loc_absent))) (args_of None)
               (world_at 100)) = [(DEBUG, LatestLocation (Some loc_absent))]
   \<and> queue (get_location_and_make_noise (env_of (Inr (Some loc_absent))) (args_of None)
              (world_at 100)) =
       [\<lparr>time = 3702, priority = 1, argument = args_of None\<rparr>]"
  using absent_location_inert [of "env_of (Inr (Some loc_absent))" "args_of None"
      "Some loc_absent" "world_at 100"]
  by (simp add: period_3600)

text \<open>
  C8: first-reading adoption. When the incoming baseline is None and the provider answers a
  present location \<^verbatim>\<open>A\<close>, the invocation logs \<^verbatim>\<open>A\<close> at level DEBUG, adopts it and
  logs it at level INFO, writes no record at level WARNING, and enters the next invocation
  with \<^verbatim>\<open>A\<close> as its baseline. When \<^verbatim>\<open>A\<close> has the four fields nothing is raised, and
  those two records are all the invocation logs.
\<close>

theorem first_reading_adopted:
  assumes "original_location a = None" and "fetch env a = Inr A"
    and "is_location_present A = Inr True"
  shows "tick_baseline env a = A
     \<and> tick_log env a =
         [(DEBUG, LatestLocation A), (INFO, StayPutLocation A)] @ handlers (tick_raised env a)
     \<and> WARNING \<notin> fst ` set (tick_log env a)
     \<and> (\<forall>d. A = Some d \<and> has_fields d \<longrightarrow> tick_raised env a = None)
     \<and> logged (get_location_and_make_noise env a w) = logged w @ tick_log env a
     \<and> queue (get_location_and_make_noise env a w) =
         insert_event
           \<lparr>time = clock w + elapsed env + LOCATION_REQUEST_PERIOD_SECONDS, priority = 1,
            argument = a\<lparr>original_location := A\<rparr>\<rparr> (queue w)"
proof -
  note body = try_body_adopt [OF assms(2) assms(3) assms(1)]
  have b: "tick_baseline env a = A"
    by (simp add: tick_baseline_def body)
  have l: "tick_log env a =
      [(DEBUG, LatestLocation A), (INFO, StayPutLocation A)] @ handlers (tick_raised env a)"
    by (simp add: tick_log_def tick_raised_def body)
  have "fst x \<noteq> WARNING" if "x \<in> set (tick_log env a)" for x
    using that handlers_level [of x "tick_raised env a"] unfolding l by auto
  then have nw: "WARNING \<notin> fst ` set (tick_log env a)"
    by force
  have wf: "\<forall>d. A = Some d \<and> has_fields d \<longrightarrow> tick_raised env a = None"
    by (simp add: tick_raised_def body location_changed_fields_same)
  have q: "queue (get_location_and_make_noise env a w) =
         insert_event
           \<lparr>time = clock w + elapsed env + LOCATION_REQUEST_PERIOD_SECONDS, priority = 1,
            argument = a\<lparr>original_location := A\<rparr>\<rparr> (queue w)"
    by (simp add: queue_tick b)
  from b l nw wf q logged_tick [of env a w] show ?thesis
    by blast
qed

theorem first_reading_adopted_witness:
  "original_location (args_of None) = None
   \<and> fetch (env_of (Inr (Some loc_A))) (args_of None) = Inr (Some loc_A)
   \<and> is_location_present (Some loc_A) = Inr True
   \<and> tick_baseline (env_of (Inr (Some loc_A))) (args_of None) = Some loc_A
   \<and> tick_log (env_of (Inr (Some loc_A))) (args_of None) =
       [(DEBUG, LatestLocation (Some loc_A)), (INFO, StayPutLocation (Some loc_A))]
   \<and> queue (get_location_and_make_noise (env_of (Inr (Some loc_A))) (args_of None)
              (world_at 100)) =
       [\<lparr>time = 3702, priority = 1, argument = args_of (Some loc_A)\<rparr>]"
  using first_reading_adopted [of "args_of None" "env_of (Inr (Some loc_A))" "Some loc_A"
      "world_at 100"]
  by (simp add: sample_tick period_3600 handlers_def)

section \<open>The scheduling contract\<close>

text \<open>
  C9: \<^verbatim>\<open>begin_loop\<close> enters the first invocation with a delay of one second and no
  baseline, so the first invocation starts one second after the start. Every invocation
  enters the next one, with the same account, key and device, a delay of one period of
  3600 seconds and priority 1; the next invocation starts one period after the clock read
  by that call. The queue is never found empty: whatever the fuel, all of it is spent on
  invocations, and one event is pending afterwards.
\<close>

theorem scheduling_contract:
  "LOCATION_REQUEST_PERIOD_SECONDS = 3600
   \<and> snd (begin_loop aid key did dtype now 0 envs) =
       \<lparr>logged = [], clock = now,
        queue = [\<lparr>time = now + 1, priority = 1, argument = begin_args aid key did dtype\<rparr>]\<rparr>
   \<and> clock (snd (begin_loop aid key did dtype now 1 envs)) = now + 1 + elapsed (envs 0)
   \<and> fst (begin_loop aid key did dtype now fuel envs) = fuel
   \<and> (\<exists>b. queue (snd (begin_loop aid key did dtype now (Suc fuel) envs)) =
         [\<lparr>time = clock (snd (begin_loop aid key did dtype now (Suc fuel) envs))
                   + LOCATION_REQUEST_PERIOD_SECONDS,
           priority = 1,
           argument = (begin_args aid key did dtype)\<lparr>original_location := b\<rparr>\<rparr>])
   \<and> clock (snd (begin_loop aid key did dtype now (Suc (Suc fuel)) envs)) =
       clock (snd (begin_loop aid key did dtype now (Suc fuel) envs))
         + LOCATION_REQUEST_PERIOD_SECONDS + elapsed (envs (Suc fuel))"
proof -
  define w0 where
    "w0 = enter 1 1 (begin_args aid key did dtype) \<lparr>logged = [], clock = now, queue = []\<rparr>"
  define e0 where
    "e0 = \<lparr>time = now + 1, priority = 1, argument = begin_args aid key did dtype\<rparr>"
  have q0: "queue w0 = [e0]"
    unfolding w0_def e0_def by (rule begin_queue)
  have loop: "begin_loop aid key did dtype now n envs = run n envs 0 w0" for n
    by (simp add: begin_loop_def w0_def)
  have c1: "LOCATION_REQUEST_PERIOD_SECONDS = 3600"
    by (rule period_3600)
  have c2: "snd (begin_loop aid key did dtype now 0 envs) =
       \<lparr>logged = [], clock = now,
        queue = [\<lparr>time = now + 1, priority = 1, argument = begin_args aid key did dtype\<rparr>]\<rparr>"
    by (simp add: begin_loop_def enter_def)
  have c3: "clock (snd (begin_loop aid key did dtype now 1 envs)) = now + 1 + elapsed (envs 0)"
    by (simp add: begin_loop_def enter_def clock_tick)
  have c4: "fst (begin_loop aid key did dtype now fuel envs) = fuel"
    using run_single [OF q0, of fuel envs 0] by (simp add: loop)
  have c5: "\<exists>b. queue (snd (begin_loop aid key did dtype now (Suc fuel) envs)) =
         [\<lparr>time = clock (snd (begin_loop aid key did dtype now (Suc fuel) envs))
                   + LOCATION_REQUEST_PERIOD_SECONDS,
           priority = 1,
           argument = (begin_args aid key did dtype)\<lparr>original_location := b\<rparr>\<rparr>]"
    using run_single [OF q0, of "Suc fuel" envs 0] unfolding loop by (simp add: e0_def)
  have c6: "clock (snd (begin_loop aid key did dtype now (Suc (Suc fuel)) envs)) =
       clock (snd (begin_loop aid key did dtype now (Suc fuel) envs))
         + LOCATION_REQUEST_PERIOD_SECONDS + elapsed (envs (Suc fuel))"
    using run_period [OF q0, of fuel envs 0] unfolding loop by simp
  from c1 c2 c3 c4 c5 c6 show ?thesis
    by blast
qed

theorem scheduling_contract_witness:
  "fst (begin_loop ''acct'' ''key'' ''204043398999957'' ''IMSI'' 100 3
          (\<lambda>i. env_of (Inr (Some loc_A)))) = 3
   \<and> clock (snd (begin_loop ''acct'' ''key'' ''204043398999957'' ''IMSI'' 100 1
          (\<lambda>i. env_of (Inr (Some loc_A))))) = 103
   \<and> clock (snd (begin_loop ''acct'' ''key'' ''204043398999957'' ''IMSI'' 100 2
          (\<lambda>i. env_of (Inr (Some loc_A))))) = 3705"
  using scheduling_contract [of "''acct''" "''key''" "''204043398999957''" "''IMSI''" 100
      "\<lambda>i. env_of (Inr (Some loc_A))" 3]
    scheduling_contract [of "''acct''" "''key''" "''204043398999957''" "''IMSI''" 100
      "\<lambda>i. env_of (Inr (Some loc_A))" 0]
  by (simp add: numeral_2_eq_2 numeral_3_eq_3)

end
